theory Spec2Isabelle
  imports Main "HOL-Library.Word" "HOL-Library.AList" "HOL-Library.Multiset"
begin

section \<open>Data model\<close>

text \<open>
  Bytes are 8-bit words, a byte string is a list of them.  A digest is a byte string
  too; the hash function (\<^verbatim>\<open>hashlib.sha1(data).digest()\<close> in the source) is a
  parameter \<open>sha1\<close> of every definition that hashes, so that nothing proved below
  depends on properties of SHA-1.
\<close>

type_synonym byte = "8 word"
type_synonym bytes = "byte list"

text \<open>
  A chunk of a manifest (\<^verbatim>\<open>chunk.cb_original\<close>, \<^verbatim>\<open>chunk.sha\<close>) and a file entry
  (\<^verbatim>\<open>file_info.filename\<close>, \<^verbatim>\<open>.size\<close>, \<^verbatim>\<open>.chunks\<close>, \<^verbatim>\<open>.is_directory\<close>,
  \<^verbatim>\<open>.offset\<close>).  The field \<^verbatim>\<open>size\<close> is called \<open>fi_size\<close> here, \<open>size\<close> being a
  constant of HOL.  \<open>offset\<close> is the read cursor of the entry, which \<^verbatim>\<open>seek\<close> sets.
\<close>

record chunk =
  cb_original :: nat
  sha :: bytes

record file_info =
  filename :: string
  fi_size :: nat
  chunks :: "chunk list"
  is_directory :: bool
  offset :: nat

text \<open>
  \<^verbatim>\<open>file_info.seek(n)\<close> for an absolute, non-negative position.  The method belongs
  to the CDN client library, not to this program: it stores the position clamped to
  the size of the file.
\<close>

definition seek :: "nat \<Rightarrow> file_info \<Rightarrow> file_info" where
  "seek n file_info = file_info\<lparr>offset := min (fi_size file_info) n\<rparr>"

subsection \<open>The local file tree\<close>

text \<open>
  The tree below the download directory: \<open>files\<close> maps the name of an existing path
  to its bytes, and \<open>io_fault\<close> says which operations on which path raise
  \<^verbatim>\<open>IOError\<close> (a directory in the place of a file, a locked or unreadable file, a
  full disk).  \<^verbatim>\<open>Path.exists\<close> is \<open>files fs p \<noteq> None\<close>.  Paths are the
  \<^verbatim>\<open>filename\<close>s of the entries: \<^verbatim>\<open>base_dir / file_info.filename\<close> with the base
  directory left implicit.
\<close>

datatype io_op = OpenRead | ReadAt nat | OpenUpdate | Truncate | Mkdir | OpenAppend | WriteAt nat

datatype exn = IOError | EOFError

record filesys =
  files :: "string \<rightharpoonup> bytes"
  io_fault :: "string \<Rightarrow> io_op \<Rightarrow> bool"

text \<open>\<^verbatim>\<open>f.truncate(n)\<close>: the file is cut to \<open>n\<close> bytes, or padded with zero bytes up to \<open>n\<close>.\<close>

definition truncate_bytes :: "nat \<Rightarrow> bytes \<Rightarrow> bytes" where
  "truncate_bytes n data = take n data @ replicate (n - length data) 0"

section \<open>Chunk verification\<close>

text \<open>
  The loop of \<^verbatim>\<open>_verify_and_repair_file\<close>:
  \<^verbatim>\<open>
    verified_offset = 0
    for chunk in file_info.chunks:
        data = f.read(chunk.cb_original)
        if not data: break
        if hashlib.sha1(data).digest() != chunk.sha: break
        verified_offset += chunk.cb_original
  \<close>
  \<open>rest\<close> is what the open file still holds after its position, \<open>i\<close> counts the
  reads, and \<open>read_fault i\<close> says that read number \<open>i\<close> raises.
\<close>

fun scan_chunks ::
  "(bytes \<Rightarrow> bytes) \<Rightarrow> (nat \<Rightarrow> bool) \<Rightarrow> nat \<Rightarrow> chunk list \<Rightarrow> bytes \<Rightarrow> nat \<Rightarrow> exn + nat" where
  "scan_chunks sha1 read_fault i [] rest verified_offset = Inr verified_offset"
| "scan_chunks sha1 read_fault i (chunk # cs) rest verified_offset =
     (if read_fault i then Inl IOError
      else let data = take (cb_original chunk) rest in
        if data = [] then Inr verified_offset
        else if sha1 data \<noteq> sha chunk then Inr verified_offset
        else scan_chunks sha1 read_fault (Suc i) cs (drop (cb_original chunk) rest)
               (verified_offset + cb_original chunk))"

text \<open>
  The body of the \<^verbatim>\<open>try\<close> block, run when the path exists; \<open>Inl\<close> is an exception
  leaving the block.  Every operation that raises does so before it changes the tree.
\<close>

definition verify_try ::
  "(bytes \<Rightarrow> bytes) \<Rightarrow> file_info \<Rightarrow> bytes \<Rightarrow> filesys \<Rightarrow> exn + (bool \<times> file_info \<times> filesys)" where
  "verify_try sha1 file_info data fs =
     (let safe_path = filename file_info in
      if io_fault fs safe_path OpenRead then Inl IOError
      else case scan_chunks sha1 (\<lambda>i. io_fault fs safe_path (ReadAt i)) 0 (chunks file_info) data 0 of
        Inl e \<Rightarrow> Inl e
      | Inr verified_offset \<Rightarrow>
          if verified_offset = fi_size file_info then Inr (True, file_info, fs)
          else if io_fault fs safe_path OpenUpdate \<or> io_fault fs safe_path Truncate then Inl IOError
          else Inr (False, seek verified_offset file_info,
                 fs\<lparr>files := (files fs)(safe_path \<mapsto> truncate_bytes verified_offset data)\<rparr>))"

text \<open>
  \<^verbatim>\<open>_verify_and_repair_file\<close>: the result is the boolean the method returns, the entry
  with its cursor as the method leaves it, and the tree.
\<close>

definition verify_and_repair_file ::
  "(bytes \<Rightarrow> bytes) \<Rightarrow> file_info \<Rightarrow> filesys \<Rightarrow> bool \<times> file_info \<times> filesys" where
  "verify_and_repair_file sha1 file_info fs =
     (case files fs (filename file_info) of
        None \<Rightarrow> (False, seek 0 file_info, fs)
      | Some data \<Rightarrow>
          (case verify_try sha1 file_info data fs of
             Inl e \<Rightarrow> (False, seek 0 file_info, fs)
           | Inr r \<Rightarrow> r))"


text \<open>
  What the theorems on verification mean by bytes that match a list of chunks, read
  in order from \<open>rest\<close>: every chunk is a non-empty byte range, present in full,
  whose hash is the chunk's digest.  \<open>total_size\<close> is the sum of the chunk sizes.
\<close>

definition total_size :: "chunk list \<Rightarrow> nat" where
  "total_size cs = sum_list (map cb_original cs)"


section \<open>The download worker\<close>

text \<open>
  \<^verbatim>\<open>_download_single_file\<close>:
  \<^verbatim>\<open>
    try:
        safe_path.parent.mkdir(parents=True, exist_ok=True)
        with safe_path.open('ab') as f_out:
            for chunk_data in file_info:
                f_out.write(chunk_data)
                pbar.update(len(chunk_data))
    except Exception as e:
        pbar.write(f"ERROR downloading ...")
  \<close>
  Iterating the entry is the library's and the network's business: \<open>iter_file\<close>, a
  parameter, gives the pieces the loop receives from the entry (read from its cursor
  on) and whether the iteration ended by raising.  \<open>written\<close> is the part of the
  pieces that reaches the file when write number \<open>i\<close> may raise.  The result is the
  entry (its cursor moved over the pieces consumed), the tree, the bytes reported to
  the progress bar and whether an error line was printed.
\<close>

fun written :: "(nat \<Rightarrow> bool) \<Rightarrow> nat \<Rightarrow> bytes list \<Rightarrow> bytes list \<times> bool" where
  "written write_fault i [] = ([], False)"
| "written write_fault i (chunk_data # ps) =
     (if write_fault i then ([], True)
      else let (ws, failed) = written write_fault (Suc i) ps in (chunk_data # ws, failed))"

definition download_single_file ::
  "(file_info \<Rightarrow> bytes list \<times> bool) \<Rightarrow> file_info \<Rightarrow> filesys \<Rightarrow> file_info \<times> filesys \<times> nat \<times> bool" where
  "download_single_file iter_file file_info fs =
     (let safe_path = filename file_info in
      if io_fault fs safe_path Mkdir \<or> io_fault fs safe_path OpenAppend then (file_info, fs, 0, True)
      else
        let (pieces, raised) = iter_file file_info;
            (ws, failed) = written (\<lambda>i. io_fault fs safe_path (WriteAt i)) 0 pieces;
            consumed = take (length ws + (if failed then 1 else 0)) pieces;
            old = (case files fs safe_path of None \<Rightarrow> [] | Some data \<Rightarrow> data)
        in (seek (offset file_info + length (concat consumed)) file_info,
            fs\<lparr>files := (files fs)(safe_path \<mapsto> old @ concat ws)\<rparr>,
            length (concat ws), raised \<or> failed))"

section \<open>The verification and download cycle\<close>


definition total_download_size :: "(file_info \<times> bool) list \<Rightarrow> int" where
  "total_download_size marked =
     sum_list (map (\<lambda>(file_info, flagged). int (fi_size file_info) - int (offset file_info))
       (filter snd marked))"

text \<open>
  PHASE 2: one task per flagged entry.  The pool runs the tasks concurrently; they are
  run here one after the other, in the order of submission.
\<close>

fun run_downloads ::
  "(file_info \<Rightarrow> bytes list \<times> bool) \<Rightarrow> (file_info \<times> bool) list \<Rightarrow> filesys \<Rightarrow> file_info list \<times> filesys" where
  "run_downloads iter_file [] fs = ([], fs)"
| "run_downloads iter_file ((file_info, flagged) # rest) fs =
     (if flagged then
        (let (file_info', fs1, n, err) = download_single_file iter_file file_info fs;
             (fis, fs') = run_downloads iter_file rest fs1
         in (file_info' # fis, fs'))
      else
        (let (fis, fs') = run_downloads iter_file rest fs in (file_info # fis, fs')))"










section \<open>Manifest aggregation\<close>

text \<open>
  An entry of \<^verbatim>\<open>depots_to_download\<close>: the dictionary with the keys \<^verbatim>\<open>depot_id\<close>,
  \<^verbatim>\<open>manifest_id\<close>, \<^verbatim>\<open>depot_key\<close> and \<^verbatim>\<open>manifest_content\<close>.  The payload is whatever
  value the descriptor's fourth line evaluates to, hence the type parameter.
\<close>

record 'v depot =
  depot_id :: int
  manifest_id :: int
  depot_key :: bytes
  manifest_content :: 'v

text \<open>
  \<^verbatim>\<open>master_file_map\<close> is a Python dictionary from file name to the pair (entry, depot
  id): an association list updated in place, which keeps the position of a key that
  is already there, as the dictionary does.  An element of the overwrite log stands
  for the three values the source puts into its log line: the file name, the id of
  the depot that had the file and the id of the depot that takes it over;
  \<open>overwrite_line\<close> below gives the line itself.
\<close>

type_synonym master_file_map = "(string \<times> (file_info \<times> int)) list"
type_synonym overwrite_event = "string \<times> int \<times> int"

text \<open>
  The body of the inner loop of \<^verbatim>\<open>download_game\<close>:
  \<^verbatim>\<open>
    if file_info.filename in master_file_map:
        old_depot_id = master_file_map[file_info.filename][1]
        self.overwrite_log.append(...)
    master_file_map[file_info.filename] = (file_info, depot['depot_id'])
  \<close>
\<close>

definition add_file ::
  "int \<Rightarrow> master_file_map \<times> overwrite_event list \<Rightarrow> file_info
     \<Rightarrow> master_file_map \<times> overwrite_event list" where
  "add_file new_depot_id st file_info =
     (case st of (master_file_map, log) \<Rightarrow>
        (AList.update (filename file_info) (file_info, new_depot_id) master_file_map,
         (case map_of master_file_map (filename file_info) of
            None \<Rightarrow> log
          | Some (old_info, old_depot_id) \<Rightarrow> log @ [(filename file_info, old_depot_id, new_depot_id)])))"

text \<open>
  The two loops, starting from an empty map and an empty log.  \<open>iter_files depot\<close>
  is the list of entries that the inner loop receives for the depot: those that
  \<^verbatim>\<open>manifest.iter_files()\<close> yields, and none when \<^verbatim>\<open>get_manifest\<close> or
  \<^verbatim>\<open>decrypt_filenames\<close> raises.  The handler around the depot only prints a warning, so
  an exception does nothing but end the list.
\<close>

definition aggregate ::
  "('v depot \<Rightarrow> file_info list) \<Rightarrow> 'v depot list \<Rightarrow> master_file_map \<times> overwrite_event list" where
  "aggregate iter_files depots =
     foldl (\<lambda>st depot. foldl (add_file (depot_id depot)) st (iter_files depot)) ([], []) depots"

text \<open>\<^verbatim>\<open>[item[0] for item in master_file_map.values()]\<close>\<close>

definition all_files_in_manifest :: "master_file_map \<Rightarrow> file_info list" where
  "all_files_in_manifest master_file_map = map (fst \<circ> snd) master_file_map"

subsection \<open>Rendering numbers\<close>

text \<open>
  \<^verbatim>\<open>str\<close> of an integer, as the f-strings of the source apply it: decimal digits, with
  a minus sign for a negative number.  \<open>digit_char\<close> also serves for hexadecimal
  digits.
\<close>

definition digit_char :: "nat \<Rightarrow> char" where
  "digit_char n = ''0123456789abcdef'' ! n"

function str_nat :: "nat \<Rightarrow> string" where
  "str_nat n = (if n < 10 then [digit_char n] else str_nat (n div 10) @ [digit_char (n mod 10)])"
  by pat_completeness auto
termination
  by (relation "measure id") auto

declare str_nat.simps [simp del]

definition str_int :: "int \<Rightarrow> string" where
  "str_int i = (if i < 0 then CHR ''-'' # str_nat (nat (- i)) else str_nat (nat i))"

text \<open>The line appended to \<^verbatim>\<open>self.overwrite_log\<close> for an event.\<close>

definition overwrite_line :: "overwrite_event \<Rightarrow> string" where
  "overwrite_line ev =
     (case ev of (path, old_depot_id, new_depot_id) \<Rightarrow>
        ''File '' @ [CHR 0x27] @ path @ [CHR 0x27] @ '' from Depot '' @ str_int old_depot_id
        @ '' was overwritten by Depot '' @ str_int new_depot_id @ ''.'')"

text \<open>
  The same computation seen as one loop over all entries in the order in which the
  nested loops meet them, each entry with the id of its depot.  The proofs work on
  this form.
\<close>

definition depot_entries :: "('v depot \<Rightarrow> file_info list) \<Rightarrow> 'v depot list \<Rightarrow> (file_info \<times> int) list" where
  "depot_entries iter_files depots =
     concat (map (\<lambda>depot. map (\<lambda>f. (f, depot_id depot)) (iter_files depot)) depots)"

definition add_entry ::
  "master_file_map \<times> overwrite_event list \<Rightarrow> file_info \<times> int \<Rightarrow> master_file_map \<times> overwrite_event list" where
  "add_entry st e = add_file (snd e) st (fst e)"


section \<open>The installed-game descriptor\<close>

text \<open>
  The inputs of \<^verbatim>\<open>SteamManifestGenerator.generate_acf_content\<close>: the details stored
  per depot by \<^verbatim>\<open>parse_app_data\<close> (the field \<^verbatim>\<open>size\<close> is called \<open>depot_size\<close> here), and
  the three values of \<^verbatim>\<open>self.app_info\<close>.  The dictionaries \<^verbatim>\<open>self.depots\<close> and
  \<^verbatim>\<open>self.shared_depots\<close> are association lists with integer keys.
\<close>

record depot_details =
  manifest :: string
  depot_size :: int
  dlc_appid :: "int option"

record app_info =
  name :: string
  installdir :: string
  buildid :: string

text \<open>
  \<^verbatim>\<open>f'{t1}"{key}"{t2}"{value}"\n'\<close>: a tab, the key in double quotes, two tabs, the
  value in double quotes, a newline.  The characters are written by their codes:
  \<open>0x09\<close> is the tab, \<open>0x0A\<close> the newline, \<open>0x22\<close> the double quote.
\<close>

definition kv_line :: "string \<Rightarrow> string \<Rightarrow> string" where
  "kv_line key val = [CHR 0x09, CHR 0x22] @ key @ [CHR 0x22, CHR 0x09, CHR 0x09, CHR 0x22] @ val @ [CHR 0x22, CHR 0x0A]"

text \<open>The dictionary \<^verbatim>\<open>main_kv\<close>, in the order of its literal, every value as \<^verbatim>\<open>str\<close> gives it.\<close>

definition main_kv :: "int \<Rightarrow> app_info \<Rightarrow> int \<Rightarrow> (string \<times> string) list" where
  "main_kv appid info size_on_disk =
     [(''appid'', str_int appid), (''Universe'', str_int 1), (''LauncherPath'', ''''),
      (''name'', name info), (''StateFlags'', str_int 4), (''installdir'', installdir info),
      (''LastUpdated'', str_int 0), (''SizeOnDisk'', str_int size_on_disk),
      (''StagingSize'', str_int 0), (''buildid'', buildid info), (''LastOwner'', ''None''),
      (''UpdateResult'', str_int 0), (''BytesToDownload'', str_int 0),
      (''BytesDownloaded'', str_int 0), (''BytesToStage'', str_int 0),
      (''BytesStaged'', str_int 0), (''TargetBuildID'', str_int 0),
      (''AutoUpdateBehavior'', str_int 0), (''AllowOtherDownloadsWhileRunning'', str_int 0),
      (''ScheduledAutoUpdate'', str_int 0)]"

text \<open>
  The parts appended for one depot of \<^verbatim>\<open>InstalledDepots\<close> (the line \<^verbatim>\<open>dlcappid\<close> only
  when the details have the key) and the line appended for one shared depot.
\<close>

definition depot_block :: "int \<times> depot_details \<Rightarrow> string list" where
  "depot_block entry =
     (case entry of (did, details) \<Rightarrow>
        [[CHR 0x09, CHR 0x09, CHR 0x22] @ str_int did @ [CHR 0x22, CHR 0x0A],
         [CHR 0x09, CHR 0x09, CHR ''{'', CHR 0x0A],
         [CHR 0x09, CHR 0x09, CHR 0x09, CHR 0x22] @ ''manifest'' @ [CHR 0x22, CHR 0x09, CHR 0x09, CHR 0x22]
           @ manifest details @ [CHR 0x22, CHR 0x0A],
         [CHR 0x09, CHR 0x09, CHR 0x09, CHR 0x22] @ ''size'' @ [CHR 0x22, CHR 0x09, CHR 0x09, CHR 0x22]
           @ str_int (depot_size details) @ [CHR 0x22, CHR 0x0A]]
        @ (case dlc_appid details of
             None \<Rightarrow> []
           | Some d \<Rightarrow> [[CHR 0x09, CHR 0x09, CHR 0x09, CHR 0x22] @ ''dlcappid''
                          @ [CHR 0x22, CHR 0x09, CHR 0x09, CHR 0x22] @ str_int d @ [CHR 0x22, CHR 0x0A]])
        @ [[CHR 0x09, CHR 0x09, CHR ''}'', CHR 0x0A]])"

definition shared_line :: "int \<times> int \<Rightarrow> string" where
  "shared_line entry =
     (case entry of (did, parent_id) \<Rightarrow>
        [CHR 0x09, CHR 0x09, CHR 0x22] @ str_int did @ [CHR 0x22, CHR 0x09, CHR 0x09, CHR 0x22]
        @ str_int parent_id @ [CHR 0x22, CHR 0x0A])"

text \<open>\<^verbatim>\<open>size_on_disk = sum(d['size'] for d in self.depots.values())\<close>\<close>

definition size_on_disk_of :: "(int \<times> depot_details) list \<Rightarrow> int" where
  "size_on_disk_of depots = sum_list (map (depot_size \<circ> snd) depots)"

text \<open>
  The list \<^verbatim>\<open>content_parts\<close> as the method builds it, both loops running over
  \<^verbatim>\<open>sorted(....items())\<close>, that is in the order of the keys; the result of the method
  is the concatenation of the parts.
\<close>

definition content_parts ::
  "int \<Rightarrow> app_info \<Rightarrow> (int \<times> depot_details) list \<Rightarrow> (int \<times> int) list \<Rightarrow> string list" where
  "content_parts appid info depots shared_depots =
     [[CHR 0x22] @ ''AppState'' @ [CHR 0x22, CHR 0x0A], [CHR ''{'', CHR 0x0A]]
     @ map (\<lambda>(key, val). kv_line key val) (main_kv appid info (size_on_disk_of depots))
     @ [[CHR 0x09, CHR 0x22] @ ''InstalledDepots'' @ [CHR 0x22, CHR 0x0A], [CHR 0x09, CHR ''{'', CHR 0x0A]]
     @ concat (map depot_block (sort_key fst depots))
     @ [[CHR 0x09, CHR ''}'', CHR 0x0A]]
     @ [[CHR 0x09, CHR 0x22] @ ''SharedDepots'' @ [CHR 0x22, CHR 0x0A], [CHR 0x09, CHR ''{'', CHR 0x0A]]
     @ map shared_line (sort_key fst shared_depots)
     @ [[CHR 0x09, CHR ''}'', CHR 0x0A]]
     @ [[CHR ''}'', CHR 0x0A]]"

definition generate_acf_content ::
  "int \<Rightarrow> app_info \<Rightarrow> (int \<times> depot_details) list \<Rightarrow> (int \<times> int) list \<Rightarrow> string" where
  "generate_acf_content appid info depots shared_depots =
     concat (content_parts appid info depots shared_depots)"

section \<open>The queue descriptor\<close>












text \<open>
  The part of the application's state that loading touches: \<^verbatim>\<open>self.app_id\<close>,
  \<^verbatim>\<open>self.depots_to_download\<close>, \<^verbatim>\<open>self.overwrite_log\<close>, and the two caches
  \<^verbatim>\<open>self.cdn.manifests\<close> and \<^verbatim>\<open>self.cdn.depot_keys\<close>.
\<close>

record ('v, 'm) app =
  app_id :: "int option"
  depots_to_download :: "'v depot list"
  overwrite_log :: "string list"
  cdn_manifests :: "int \<times> int \<times> int \<rightharpoonup> 'm"
  cdn_depot_keys :: "int \<rightharpoonup> bytes"



text \<open>\<^verbatim>\<open>_reset_queue\<close>\<close>

definition reset_queue :: "('v, 'm) app \<Rightarrow> ('v, 'm) app" where
  "reset_queue st = st\<lparr>app_id := None, depots_to_download := [], overwrite_log := [],
                        cdn_manifests := Map.empty, cdn_depot_keys := Map.empty\<rparr>"







text \<open>The queue as \<^verbatim>\<open>_reset_queue\<close> leaves it.\<close>

definition queue_cleared :: "('v, 'm) app \<Rightarrow> bool" where
  "queue_cleared st =
     (app_id st = None \<and> depots_to_download st = [] \<and> overwrite_log st = []
      \<and> cdn_manifests st = Map.empty \<and> cdn_depot_keys st = Map.empty)"








section \<open>Example data\<close>

text \<open>
  A stand-in for the hash function in the examples: the length of the data and the sum
  of its bytes.  The theorems hold for every hash function; the examples need one that
  computes.
\<close>

definition demo_sha1 :: "bytes \<Rightarrow> bytes" where
  "demo_sha1 data = [of_nat (length data), sum_list data]"

text \<open>A file of four bytes \<open>1 2 3 4\<close> in two chunks of two bytes.\<close>

definition demo_file :: file_info where
  "demo_file = \<lparr>filename = ''a.bin'', fi_size = 4,
      chunks = [\<lparr>cb_original = 2, sha = [2, 3]\<rparr>, \<lparr>cb_original = 2, sha = [2, 7]\<rparr>],
      is_directory = False, offset = 0\<rparr>"

text \<open>Trees that hold the file damaged after its first chunk, intact, and not at all.\<close>

definition no_fault :: "string \<Rightarrow> io_op \<Rightarrow> bool" where
  "no_fault p op = False"

definition damaged_tree :: filesys where
  "damaged_tree = \<lparr>files = [''a.bin'' \<mapsto> [1, 2, 9, 9, 7]], io_fault = no_fault\<rparr>"





text \<open>A remote side that delivers, in one piece, the file's bytes from the cursor on.\<close>

definition demo_iter :: "file_info \<Rightarrow> bytes list \<times> bool" where
  "demo_iter file_info = ([drop (offset file_info) [1, 2, 3, 4]], False)"


text \<open>The depots of the descriptor example, listed with depot 20 first, and its metadata.\<close>

definition example_depots :: "(int \<times> depot_details) list" where
  "example_depots =
     [(20, \<lparr>manifest = ''222'', depot_size = 50, dlc_appid = Some 30\<rparr>),
      (10, \<lparr>manifest = ''111'', depot_size = 100, dlc_appid = None\<rparr>)]"

definition example_info :: app_info where
  "example_info = \<lparr>name = ''Game'', installdir = ''Game'', buildid = ''7''\<rparr>"

text \<open>Three depots that all list the path \<^verbatim>\<open>f.txt\<close>, with entries of sizes 1, 2 and 3.\<close>

definition demo_depot :: "int \<Rightarrow> unit depot" where
  "demo_depot i = \<lparr>depot_id = i, manifest_id = 100 + i, depot_key = [], manifest_content = ()\<rparr>"

definition demo_entry :: "nat \<Rightarrow> file_info" where
  "demo_entry n = \<lparr>filename = ''f.txt'', fi_size = n, chunks = [], is_directory = False, offset = 0\<rparr>"

definition demo_manifests :: "unit depot \<Rightarrow> file_info list" where
  "demo_manifests depot = [demo_entry (nat (depot_id depot))]"















section \<open>Properties of the chunk verifier\<close>

lemma total_size_simps [simp]:
  "total_size [] = 0"
  "total_size (c # cs) = cb_original c + total_size cs"
  "total_size (cs @ ds) = total_size cs + total_size ds"
  by (simp_all add: total_size_def)











lemma scan_chunks_bound:
  "scan_chunks sha1 read_fault i cs rest v = Inr w \<Longrightarrow> v \<le> w \<and> w \<le> v + total_size cs"
proof (induction cs arbitrary: i rest v)
  case Nil
  then show ?case by simp
next
  case (Cons c cs)
  show ?case
  proof (cases "read_fault i \<or> take (cb_original c) rest = [] \<or> sha1 (take (cb_original c) rest) \<noteq> sha c")
    case True
    with Cons.prems show ?thesis by (auto simp: Let_def split: if_splits)
  next
    case False
    with Cons.prems have "scan_chunks sha1 read_fault (Suc i) cs (drop (cb_original c) rest) (v + cb_original c) = Inr w"
      by (simp add: Let_def)
    from Cons.IH [OF this] show ?thesis by simp
  qed
qed

lemma length_truncate_bytes [simp]: "length (truncate_bytes n data) = n"
  by (simp add: truncate_bytes_def)




section \<open>The cursor between verification and download\<close>

lemma written_take: "\<exists>k. fst (written write_fault i ps) = take k ps"
proof (induction ps arbitrary: i)
  case Nil
  then show ?case by simp
next
  case (Cons p ps)
  show ?case
  proof (cases "write_fault i")
    case True
    then have "fst (written write_fault i (p # ps)) = take 0 (p # ps)" by simp
    then show ?thesis by blast
  next
    case False
    from Cons.IH [of "Suc i"] obtain k where "fst (written write_fault (Suc i) ps) = take k ps" ..
    with False have "fst (written write_fault i (p # ps)) = take (Suc k) (p # ps)"
      by (cases "written write_fault (Suc i) ps") simp
    then show ?thesis by blast
  qed
qed

lemma download_single_file_files:
  "files (fst (snd (download_single_file iter_file file_info fs))) =
     (if io_fault fs (filename file_info) Mkdir \<or> io_fault fs (filename file_info) OpenAppend
      then files fs
      else (files fs)(filename file_info \<mapsto>
             (case files fs (filename file_info) of None \<Rightarrow> [] | Some data \<Rightarrow> data)
             @ concat (fst (written (\<lambda>i. io_fault fs (filename file_info) (WriteAt i)) 0
                              (fst (iter_file file_info))))))"
  by (simp add: download_single_file_def Let_def split: prod.splits)

lemma download_single_file_io_fault [simp]:
  "io_fault (fst (snd (download_single_file iter_file file_info fs))) = io_fault fs"
  by (simp add: download_single_file_def Let_def split: prod.splits)

lemma download_single_file_entry [simp]:
  "filename (fst (download_single_file iter_file file_info fs)) = filename file_info"
  "fi_size (fst (download_single_file iter_file file_info fs)) = fi_size file_info"
  "chunks (fst (download_single_file iter_file file_info fs)) = chunks file_info"
  "is_directory (fst (download_single_file iter_file file_info fs)) = is_directory file_info"
  by (simp_all add: download_single_file_def Let_def seek_def split: prod.splits)

lemma verify_entry [simp]:
  "filename (fst (snd (verify_and_repair_file sha1 file_info fs))) = filename file_info"
  "fi_size (fst (snd (verify_and_repair_file sha1 file_info fs))) = fi_size file_info"
  "chunks (fst (snd (verify_and_repair_file sha1 file_info fs))) = chunks file_info"
  "is_directory (fst (snd (verify_and_repair_file sha1 file_info fs))) = is_directory file_info"
  by (simp_all add: verify_and_repair_file_def verify_try_def Let_def seek_def
        split: option.splits sum.splits)

lemma verify_io_fault [simp]:
  "io_fault (snd (snd (verify_and_repair_file sha1 file_info fs))) = io_fault fs"
  by (simp add: verify_and_repair_file_def verify_try_def Let_def split: option.splits sum.splits)

text \<open>
  Claim C9.  Let the verifier flag an entry for repair, the chunk sizes of the entry
  adding up to no more than the size of the file, and let the download worker run
  next on the entry and the tree as the verifier left them.  Then the cursor of the
  entry is 0 when the local file is absent and when the guarded block raised (both
  with the tree untouched), and is otherwise the length of the local file, which has
  been cut to it.  The worker leaves every other path alone; on the entry's path it
  either changes nothing (the file could not be opened) or puts, after the bytes that
  are there, pieces it got by iterating the entry from that cursor; the bytes that
  were there stay as they are.
\<close>

theorem resume_cursor_couples_verify_and_download:
  assumes v: "verify_and_repair_file sha1 file_info fs = (False, file_info', fs')"
    and inv: "total_size (chunks file_info) \<le> fi_size file_info"
    and d: "download_single_file iter_file file_info' fs' = (file_info'', fs'', n, err)"
  shows "(files fs (filename file_info) = None \<longrightarrow> offset file_info' = 0 \<and> fs' = fs)
    \<and> (\<forall>data e. files fs (filename file_info) = Some data \<and> verify_try sha1 file_info data fs = Inl e
          \<longrightarrow> offset file_info' = 0 \<and> fs' = fs)
    \<and> (\<forall>data r. files fs (filename file_info) = Some data \<and> verify_try sha1 file_info data fs = Inr r
          \<longrightarrow> files fs' (filename file_info) = Some (truncate_bytes (offset file_info') data)
              \<and> length (truncate_bytes (offset file_info') data) = offset file_info')
    \<and> (\<forall>q. q \<noteq> filename file_info \<longrightarrow> files fs'' q = files fs' q)
    \<and> (\<exists>k. files fs'' (filename file_info) =
          (if io_fault fs' (filename file_info) Mkdir \<or> io_fault fs' (filename file_info) OpenAppend
           then files fs' (filename file_info)
           else Some ((case files fs' (filename file_info) of None \<Rightarrow> [] | Some old \<Rightarrow> old)
                      @ concat (take k (fst (iter_file file_info'))))))
    \<and> (\<forall>old. files fs' (filename file_info) = Some old
          \<longrightarrow> (\<exists>new. files fs'' (filename file_info) = Some new \<and> take (length old) new = old))"
proof -
  let ?p = "filename file_info"
  have name: "filename file_info' = ?p"
    using verify_entry(1) [of sha1 file_info fs] v by simp
  have absent: "files fs ?p = None \<longrightarrow> offset file_info' = 0 \<and> fs' = fs"
    using v by (auto simp: verify_and_repair_file_def seek_def)
  have raised: "\<forall>data e. files fs ?p = Some data \<and> verify_try sha1 file_info data fs = Inl e
          \<longrightarrow> offset file_info' = 0 \<and> fs' = fs"
    using v by (auto simp: verify_and_repair_file_def seek_def)
  have cut: "\<forall>data r. files fs ?p = Some data \<and> verify_try sha1 file_info data fs = Inr r
          \<longrightarrow> files fs' ?p = Some (truncate_bytes (offset file_info') data)
              \<and> length (truncate_bytes (offset file_info') data) = offset file_info'"
  proof (intro allI impI, elim conjE)
    fix data r
    assume f: "files fs ?p = Some data" and t: "verify_try sha1 file_info data fs = Inr r"
    from v f t have r: "r = (False, file_info', fs')"
      by (simp add: verify_and_repair_file_def)
    from t r obtain w where
      s: "scan_chunks sha1 (\<lambda>i. io_fault fs ?p (ReadAt i)) 0 (chunks file_info) data 0 = Inr w"
      and fi: "file_info' = seek w file_info"
      and fs: "fs' = fs\<lparr>files := (files fs)(?p \<mapsto> truncate_bytes w data)\<rparr>"
      by (auto simp: verify_try_def Let_def split: if_splits sum.splits)
    from scan_chunks_bound [OF s] inv have "w \<le> fi_size file_info" by simp
    with fi have "offset file_info' = w" by (simp add: seek_def)
    with fs show "files fs' ?p = Some (truncate_bytes (offset file_info') data)
              \<and> length (truncate_bytes (offset file_info') data) = offset file_info'"
      by simp
  qed
  have fs'': "fs'' = fst (snd (download_single_file iter_file file_info' fs'))"
    using d by simp
  obtain k where k: "fst (written (\<lambda>i. io_fault fs' ?p (WriteAt i)) 0 (fst (iter_file file_info')))
      = take k (fst (iter_file file_info'))"
    using written_take by blast
  have files'': "files fs'' =
     (if io_fault fs' ?p Mkdir \<or> io_fault fs' ?p OpenAppend then files fs'
      else (files fs')(?p \<mapsto> (case files fs' ?p of None \<Rightarrow> [] | Some old \<Rightarrow> old)
             @ concat (take k (fst (iter_file file_info')))))"
    unfolding fs'' download_single_file_files name k ..
  have others: "\<forall>q. q \<noteq> ?p \<longrightarrow> files fs'' q = files fs' q"
    by (simp add: files'')
  have appended: "\<exists>k. files fs'' ?p =
          (if io_fault fs' ?p Mkdir \<or> io_fault fs' ?p OpenAppend then files fs' ?p
           else Some ((case files fs' ?p of None \<Rightarrow> [] | Some old \<Rightarrow> old)
                      @ concat (take k (fst (iter_file file_info')))))"
    by (rule exI [of _ k]) (simp add: files'')
  have kept: "\<forall>old. files fs' ?p = Some old
          \<longrightarrow> (\<exists>new. files fs'' ?p = Some new \<and> take (length old) new = old)"
    by (simp add: files'')
  from absent raised cut others appended kept show ?thesis by blast
qed

theorem resume_cursor_couples_verify_and_download_witness:
  "files (damaged_tree\<lparr>files := (files damaged_tree)(''a.bin'' \<mapsto> [1, 2])\<rparr>) ''a.bin''
      = Some (truncate_bytes (offset (demo_file\<lparr>offset := 2\<rparr>)) [1, 2, 9, 9, 7])
   \<and> (\<exists>new. files (damaged_tree\<lparr>files := (files damaged_tree)(''a.bin'' \<mapsto> [1, 2, 3, 4])\<rparr>) ''a.bin'' = Some new
         \<and> take (length [1, 2 :: byte]) new = [1, 2])"
proof -
  let ?fs' = "damaged_tree\<lparr>files := (files damaged_tree)(''a.bin'' \<mapsto> [1, 2])\<rparr>"
  let ?fs'' = "damaged_tree\<lparr>files := (files damaged_tree)(''a.bin'' \<mapsto> [1, 2, 3, 4])\<rparr>"
  have v: "verify_and_repair_file demo_sha1 demo_file damaged_tree = (False, demo_file\<lparr>offset := 2\<rparr>, ?fs')"
    by (simp add: verify_and_repair_file_def verify_try_def seek_def damaged_tree_def demo_file_def
          demo_sha1_def no_fault_def truncate_bytes_def Let_def)
  have inv: "total_size (chunks demo_file) \<le> fi_size demo_file"
    by (simp add: demo_file_def)
  have d: "download_single_file demo_iter (demo_file\<lparr>offset := 2\<rparr>) ?fs'
             = (demo_file\<lparr>offset := 4\<rparr>, ?fs'', 2, False)"
    by (simp add: download_single_file_def demo_iter_def damaged_tree_def demo_file_def no_fault_def
          seek_def Let_def)
  have t: "verify_try demo_sha1 demo_file [1, 2, 9, 9, 7] damaged_tree = Inr (False, demo_file\<lparr>offset := 2\<rparr>, ?fs')"
    by (simp add: verify_try_def seek_def damaged_tree_def demo_file_def
          demo_sha1_def no_fault_def truncate_bytes_def Let_def)
  have f: "files damaged_tree (filename demo_file) = Some [1, 2, 9, 9, 7]"
    by (simp add: damaged_tree_def demo_file_def)
  have f': "files ?fs' (filename demo_file) = Some [1, 2]"
    by (simp add: demo_file_def)
  note r = resume_cursor_couples_verify_and_download [OF v inv d]
  from r f t have "files ?fs' (filename demo_file) = Some (truncate_bytes (offset (demo_file\<lparr>offset := 2\<rparr>)) [1, 2, 9, 9, 7])"
    by blast
  moreover from r f' have "\<exists>new. files ?fs'' (filename demo_file) = Some new \<and> take (length [1, 2 :: byte]) new = [1, 2]"
    by blast
  ultimately show ?thesis by (simp add: demo_file_def)
qed

section \<open>Properties of the descriptor builder\<close>

lemma main_kv_size_on_disk:
  "\<exists>a b. map (\<lambda>(key, val). kv_line key val) (main_kv appid info n)
           = a @ [kv_line ''SizeOnDisk'' (str_int n)] @ b"
proof -
  have "map (\<lambda>(key, val). kv_line key val) (main_kv appid info n)
          = map (\<lambda>(key, val). kv_line key val) (take 7 (main_kv appid info n))
            @ [kv_line ''SizeOnDisk'' (str_int n)]
            @ map (\<lambda>(key, val). kv_line key val) (drop 8 (main_kv appid info n))"
    by (simp add: main_kv_def)
  then show ?thesis by blast
qed

text \<open>
  Claim C10.  The text of the descriptor is a function of the application id, the
  metadata, the depots and the shared depots alone.  It consists of a head, the blocks
  of the depots, a middle part, the lines of the shared depots and the closing
  braces, where the depots and the shared depots are those given, each in ascending
  order of depot id, and where the head contains the line \<^verbatim>\<open>SizeOnDisk\<close> with the sum of
  all depot sizes.  For the two depots of the example the sum is 150 and the block of
  depot 10 comes before the block of depot 20.
\<close>

theorem descriptor_sorted_by_id_with_total_size:
  "(\<exists>head es mid ss a b.
      generate_acf_content appid info depots shared_depots
        = head @ concat (concat (map depot_block es)) @ mid @ concat (map shared_line ss)
          @ [CHR 0x09, CHR ''}'', CHR 0x0A, CHR ''}'', CHR 0x0A]
      \<and> sorted (map fst es) \<and> mset es = mset depots
      \<and> sorted (map fst ss) \<and> mset ss = mset shared_depots
      \<and> head = a @ kv_line ''SizeOnDisk'' (str_int (sum_list (map (depot_size \<circ> snd) depots))) @ b)
   \<and> sum_list (map (depot_size \<circ> snd) example_depots) = 150
   \<and> (\<exists>head tail.
        generate_acf_content 480 example_info example_depots []
          = head
            @ concat (depot_block (10, \<lparr>manifest = ''111'', depot_size = 100, dlc_appid = None\<rparr>))
            @ concat (depot_block (20, \<lparr>manifest = ''222'', depot_size = 50, dlc_appid = Some 30\<rparr>))
            @ tail
        \<and> (\<exists>a b. head = a @ kv_line ''SizeOnDisk'' ''150'' @ b))"
proof (intro conjI)
  let ?n = "sum_list (map (depot_size \<circ> snd) depots)"
  let ?opening = "[[CHR 0x22] @ ''AppState'' @ [CHR 0x22, CHR 0x0A], [CHR ''{'', CHR 0x0A]]"
  let ?inst = "[[CHR 0x09, CHR 0x22] @ ''InstalledDepots'' @ [CHR 0x22, CHR 0x0A], [CHR 0x09, CHR ''{'', CHR 0x0A]]"
  let ?mid = "[CHR 0x09, CHR ''}'', CHR 0x0A] @ [CHR 0x09, CHR 0x22] @ ''SharedDepots'' @ [CHR 0x22, CHR 0x0A]
              @ [CHR 0x09, CHR ''{'', CHR 0x0A]"
  obtain a b where ab: "map (\<lambda>(key, val). kv_line key val) (main_kv appid info ?n)
           = a @ [kv_line ''SizeOnDisk'' (str_int ?n)] @ b"
    using main_kv_size_on_disk by blast
  let ?head = "concat ?opening @ concat (map (\<lambda>(key, val). kv_line key val) (main_kv appid info ?n)) @ concat ?inst"
  have content_eq: "generate_acf_content appid info depots shared_depots
        = ?head @ concat (concat (map depot_block (sort_key fst depots))) @ ?mid
          @ concat (map shared_line (sort_key fst shared_depots))
          @ [CHR 0x09, CHR ''}'', CHR 0x0A, CHR ''}'', CHR 0x0A]"
    by (simp add: generate_acf_content_def content_parts_def size_on_disk_of_def)
  have head: "?head = (concat ?opening @ concat a) @ kv_line ''SizeOnDisk'' (str_int ?n) @ (concat b @ concat ?inst)"
    by (simp add: ab)
  show "\<exists>head es mid ss a b.
      generate_acf_content appid info depots shared_depots
        = head @ concat (concat (map depot_block es)) @ mid @ concat (map shared_line ss)
          @ [CHR 0x09, CHR ''}'', CHR 0x0A, CHR ''}'', CHR 0x0A]
      \<and> sorted (map fst es) \<and> mset es = mset depots
      \<and> sorted (map fst ss) \<and> mset ss = mset shared_depots
      \<and> head = a @ kv_line ''SizeOnDisk'' (str_int ?n) @ b"
  proof -
    have "sorted (map fst (sort_key fst depots))" "mset (sort_key fst depots) = mset depots"
      "sorted (map fst (sort_key fst shared_depots))" "mset (sort_key fst shared_depots) = mset shared_depots"
      by simp_all
    with content_eq head show ?thesis by blast
  qed
next
  show "sum_list (map (depot_size \<circ> snd) example_depots) = 150"
    by (simp add: example_depots_def)
next
  let ?opening = "[[CHR 0x22] @ ''AppState'' @ [CHR 0x22, CHR 0x0A], [CHR ''{'', CHR 0x0A]]"
  let ?inst = "[[CHR 0x09, CHR 0x22] @ ''InstalledDepots'' @ [CHR 0x22, CHR 0x0A], [CHR 0x09, CHR ''{'', CHR 0x0A]]"
  let ?tail = "[CHR 0x09, CHR ''}'', CHR 0x0A] @ [CHR 0x09, CHR 0x22] @ ''SharedDepots'' @ [CHR 0x22, CHR 0x0A]
              @ [CHR 0x09, CHR ''{'', CHR 0x0A] @ [CHR 0x09, CHR ''}'', CHR 0x0A, CHR ''}'', CHR 0x0A]"
  have s150: "str_int 150 = ''150''"
    by (simp add: str_int_def str_nat.simps digit_char_def)
  obtain a b where ab: "map (\<lambda>(key, val). kv_line key val) (main_kv 480 example_info 150)
           = a @ [kv_line ''SizeOnDisk'' (str_int 150)] @ b"
    using main_kv_size_on_disk by blast
  let ?head = "concat ?opening @ concat (map (\<lambda>(key, val). kv_line key val) (main_kv 480 example_info 150)) @ concat ?inst"
  have sorted: "sort_key fst example_depots
      = [(10, \<lparr>manifest = ''111'', depot_size = 100, dlc_appid = None\<rparr>),
         (20, \<lparr>manifest = ''222'', depot_size = 50, dlc_appid = Some 30\<rparr>)]"
    by (simp add: example_depots_def)
  have content_eq: "generate_acf_content 480 example_info example_depots []
          = ?head
            @ concat (depot_block (10, \<lparr>manifest = ''111'', depot_size = 100, dlc_appid = None\<rparr>))
            @ concat (depot_block (20, \<lparr>manifest = ''222'', depot_size = 50, dlc_appid = Some 30\<rparr>))
            @ ?tail"
    unfolding generate_acf_content_def content_parts_def sorted size_on_disk_of_def
    by (simp add: example_depots_def)
  have head: "?head = (concat ?opening @ concat a) @ kv_line ''SizeOnDisk'' ''150'' @ (concat b @ concat ?inst)"
    by (simp add: ab s150)
  show "\<exists>head tail.
        generate_acf_content 480 example_info example_depots []
          = head
            @ concat (depot_block (10, \<lparr>manifest = ''111'', depot_size = 100, dlc_appid = None\<rparr>))
            @ concat (depot_block (20, \<lparr>manifest = ''222'', depot_size = 50, dlc_appid = Some 30\<rparr>))
            @ tail
        \<and> (\<exists>a b. head = a @ kv_line ''SizeOnDisk'' ''150'' @ b)"
    using content_eq head by blast
qed

section \<open>Properties of the aggregation\<close>

lemma fst_add_entry: "fst (add_entry st e) = AList.update (filename (fst e)) e (fst st)"
  by (cases st, cases e) (simp add: add_entry_def add_file_def)

lemma snd_add_entry:
  "snd (add_entry st e) =
     (case map_of (fst st) (filename (fst e)) of
        None \<Rightarrow> snd st
      | Some old \<Rightarrow> snd st @ [(filename (fst e), snd old, snd e)])"
  by (cases st, cases e) (simp add: add_entry_def add_file_def split: option.splits prod.splits)

lemma foldl_add_file: "foldl (add_file did) st fs = foldl add_entry st (map (\<lambda>f. (f, did)) fs)"
  by (induction fs arbitrary: st) (simp_all add: add_entry_def)

lemma aggregate_flat:
  "foldl (\<lambda>st depot. foldl (add_file (depot_id depot)) st (iter_files depot)) st depots
     = foldl add_entry st (depot_entries iter_files depots)"
  by (induction depots arbitrary: st) (simp_all add: depot_entries_def foldl_add_file)

lemma aggregate_entries: "aggregate iter_files depots = foldl add_entry ([], []) (depot_entries iter_files depots)"
  by (simp add: aggregate_def aggregate_flat)

lemma map_untouched:
  "\<forall>e \<in> set es. filename (fst e) \<noteq> p \<Longrightarrow> map_of (fst (foldl add_entry st es)) p = map_of (fst st) p"
  by (induction es arbitrary: st) (auto simp: fst_add_entry update_conv')

lemma map_last: "map_of (fst (foldl add_entry st (es @ [e]))) (filename (fst e)) = Some e"
  by (simp add: fst_add_entry update_conv')

lemma count_other:
  "\<forall>e \<in> set es. snd e \<noteq> b \<or> filename (fst e) \<noteq> p \<Longrightarrow>
   count_list (snd (foldl add_entry st es)) (p, a, b) = count_list (snd st) (p, a, b)"
proof (induction es arbitrary: st)
  case Nil
  then show ?case by simp
next
  case (Cons e es)
  have "count_list (snd (add_entry st e)) (p, a, b) = count_list (snd st) (p, a, b)"
    using Cons.prems by (auto simp: snd_add_entry split: option.splits)
  with Cons show ?case by simp
qed

lemma count_same_depot:
  assumes "\<forall>e \<in> set es. snd e = b" and "a \<noteq> b"
  shows "count_list (snd (foldl add_entry st es)) (p, a, b) =
         count_list (snd st) (p, a, b)
         + (if map_option snd (map_of (fst st) p) = Some a \<and> p \<in> (filename \<circ> fst) ` set es then 1 else 0)"
  using assms(1)
proof (induction es arbitrary: st)
  case Nil
  then show ?case by simp
next
  case (Cons e es)
  let ?st = "add_entry st e"
  have b: "snd e = b" using Cons.prems by simp
  have IH: "count_list (snd (foldl add_entry ?st es)) (p, a, b) =
         count_list (snd ?st) (p, a, b)
         + (if map_option snd (map_of (fst ?st) p) = Some a \<and> p \<in> (filename \<circ> fst) ` set es then 1 else 0)"
    using Cons.prems by (intro Cons.IH) simp
  show ?case
  proof (cases "filename (fst e) = p")
    case True
    have holder: "map_option snd (map_of (fst ?st) p) = Some b"
      using True b by (simp add: fst_add_entry update_conv')
    have "count_list (snd ?st) (p, a, b) = count_list (snd st) (p, a, b)
            + (if map_option snd (map_of (fst st) p) = Some a then 1 else 0)"
      using True b by (auto simp: snd_add_entry split: option.splits)
    with IH holder assms(2) True show ?thesis by auto
  next
    case False
    have "map_of (fst ?st) p = map_of (fst st) p"
      using False by (simp add: fst_add_entry update_conv')
    moreover have "count_list (snd ?st) (p, a, b) = count_list (snd st) (p, a, b)"
      using False by (auto simp: snd_add_entry split: option.splits)
    ultimately show ?thesis using IH False by auto
  qed
qed

lemma holder_after:
  "p \<in> (filename \<circ> fst) ` set es \<Longrightarrow> \<forall>e \<in> set es. snd e = a \<Longrightarrow>
   map_option snd (map_of (fst (foldl add_entry st es)) p) = Some a"
proof (induction es arbitrary: st rule: rev_induct)
  case Nil
  then show ?case by simp
next
  case (snoc e es)
  show ?case
  proof (cases "filename (fst e) = p")
    case True
    with snoc.prems show ?thesis by (simp add: fst_add_entry update_conv')
  next
    case False
    with snoc.prems have "p \<in> (filename \<circ> fst) ` set es" by auto
    with snoc have "map_option snd (map_of (fst (foldl add_entry st es)) p) = Some a" by simp
    with False show ?thesis by (simp add: fst_add_entry update_conv')
  qed
qed

lemma map_from_entries:
  "p \<in> (filename \<circ> fst) ` set es \<Longrightarrow>
   \<exists>e \<in> set es. filename (fst e) = p \<and> map_of (fst (foldl add_entry st es)) p = Some e"
proof (induction es arbitrary: st rule: rev_induct)
  case Nil
  then show ?case by simp
next
  case (snoc e es)
  show ?case
  proof (cases "filename (fst e) = p")
    case True
    then show ?thesis by (auto simp: fst_add_entry update_conv')
  next
    case False
    with snoc.prems have "p \<in> (filename \<circ> fst) ` set es" by auto
    from snoc.IH [OF this, of st] False show ?thesis by (auto simp: fst_add_entry update_conv')
  qed
qed

text \<open>
  Claim C1, as amended.  Let the depot ids of the queue be distinct, let depot \<open>B\<close>
  come after depot \<open>A\<close>, both listing the path, \<open>B\<close> with one entry for it, and let no
  depot between them list the path.  Then the overwrite log holds the event
  \<open>(path, A, B)\<close> exactly once; and if no depot after \<open>B\<close> lists the path, the
  aggregated map gives for the path the entry of \<open>B\<close> paired with the id of \<open>B\<close>.
\<close>

theorem aggregate_last_writer_wins:
  assumes q: "depots = pre @ A # mid @ B # post"
    and ids: "distinct (map depot_id depots)"
    and inA: "path \<in> filename ` set (iter_files A)"
    and inB: "file_info_B \<in> set (iter_files B)" "filename file_info_B = path"
    and once: "\<forall>f \<in> set (iter_files B). filename f = path \<longrightarrow> f = file_info_B"
    and between: "\<forall>d \<in> set mid. path \<notin> filename ` set (iter_files d)"
  shows "count_list (snd (aggregate iter_files depots)) (path, depot_id A, depot_id B) = 1
    \<and> ((\<forall>d \<in> set post. path \<notin> filename ` set (iter_files d)) \<longrightarrow>
         map_of (fst (aggregate iter_files depots)) path = Some (file_info_B, depot_id B))"
proof -
  let ?E = "depot_entries iter_files"
  let ?a = "depot_id A" and ?b = "depot_id B"
  have ab: "?a \<noteq> ?b" using ids q by auto
  have ents: "?E depots = ?E pre @ ?E [A] @ ?E mid @ ?E [B] @ ?E post"
    by (simp add: q depot_entries_def)
  have ids_of: "\<And>ds e. e \<in> set (?E ds) \<Longrightarrow> snd e \<in> depot_id ` set ds"
    by (auto simp: depot_entries_def)
  have names_of: "\<And>ds e. e \<in> set (?E ds) \<Longrightarrow> \<exists>d \<in> set ds. filename (fst e) \<in> filename ` set (iter_files d)"
    by (fastforce simp: depot_entries_def)
  have notb: "\<And>ds. ?b \<notin> depot_id ` set ds \<Longrightarrow> \<forall>e \<in> set (?E ds). snd e \<noteq> ?b \<or> filename (fst e) \<noteq> path"
    using ids_of by fastforce
  have b_pre: "?b \<notin> depot_id ` set pre" and b_A: "?b \<notin> depot_id ` set [A]"
    and b_mid: "?b \<notin> depot_id ` set mid" and b_post: "?b \<notin> depot_id ` set post"
    using ids q by auto
  let ?s0 = "([], []) :: master_file_map \<times> overwrite_event list"
  let ?s1 = "foldl add_entry ?s0 (?E pre)"
  let ?s2 = "foldl add_entry ?s1 (?E [A])"
  let ?s3 = "foldl add_entry ?s2 (?E mid)"
  let ?s4 = "foldl add_entry ?s3 (?E [B])"
  let ?s5 = "foldl add_entry ?s4 (?E post)"
  let ?ev = "(path, ?a, ?b)"
  have agg: "aggregate iter_files depots = ?s5"
    by (simp add: aggregate_entries ents)
  have c1: "count_list (snd ?s1) ?ev = 0"
    using count_other [OF notb [OF b_pre], of ?s0 ?a] by simp
  have c2: "count_list (snd ?s2) ?ev = 0"
    using count_other [OF notb [OF b_A], of ?s1 ?a] c1 by simp
  have c3: "count_list (snd ?s3) ?ev = 0"
    using count_other [OF notb [OF b_mid], of ?s2 ?a] c2 by simp
  have pA: "path \<in> (filename \<circ> fst) ` set (?E [A])"
    using inA by (force simp: depot_entries_def)
  have allA: "\<forall>e \<in> set (?E [A]). snd e = ?a"
    by (auto simp: depot_entries_def)
  have h2: "map_option snd (map_of (fst ?s2) path) = Some ?a"
    using pA allA by (rule holder_after)
  have mid_free: "\<forall>e \<in> set (?E mid). filename (fst e) \<noteq> path"
    using between names_of [of _ mid] by blast
  have h3: "map_option snd (map_of (fst ?s3) path) = Some ?a"
    using map_untouched [OF mid_free, of ?s2] h2 by simp
  have pB: "path \<in> (filename \<circ> fst) ` set (?E [B])"
    using inB by (force simp: depot_entries_def)
  have allB: "\<forall>e \<in> set (?E [B]). snd e = ?b"
    by (auto simp: depot_entries_def)
  have c4: "count_list (snd ?s4) ?ev = 1"
    using count_same_depot [OF allB ab, of ?s3 path] c3 h3 pB by simp
  have c5: "count_list (snd ?s5) ?ev = 1"
    using count_other [OF notb [OF b_post], of ?s4 ?a] c4 by simp
  have m: "map_of (fst ?s5) path = Some (file_info_B, ?b)"
    if post_free: "\<forall>d \<in> set post. path \<notin> filename ` set (iter_files d)"
  proof -
    have pf: "\<forall>e \<in> set (?E post). filename (fst e) \<noteq> path"
      using post_free names_of [of _ post] by blast
    from map_from_entries [OF pB, of ?s3] obtain e where
      e: "e \<in> set (?E [B])" "filename (fst e) = path" "map_of (fst ?s4) path = Some e"
      by blast
    from e(1) obtain f where f: "f \<in> set (iter_files B)" "e = (f, ?b)"
      by (auto simp: depot_entries_def)
    with e(2) once have "e = (file_info_B, ?b)" by simp
    with e(3) map_untouched [OF pf, of ?s4] show ?thesis by simp
  qed
  from c5 m agg show ?thesis by simp
qed

theorem aggregate_last_writer_wins_witness:
  "count_list (snd (aggregate demo_manifests [demo_depot 1, demo_depot 2, demo_depot 3]))
      (''f.txt'', 2, 3) = 1
   \<and> map_of (fst (aggregate demo_manifests [demo_depot 1, demo_depot 2, demo_depot 3])) ''f.txt''
      = Some (demo_entry 3, 3)"
proof -
  have "count_list (snd (aggregate demo_manifests [demo_depot 1, demo_depot 2, demo_depot 3]))
          (''f.txt'', depot_id (demo_depot 2), depot_id (demo_depot 3)) = 1
    \<and> ((\<forall>d \<in> set []. ''f.txt'' \<notin> filename ` set (demo_manifests d)) \<longrightarrow>
         map_of (fst (aggregate demo_manifests [demo_depot 1, demo_depot 2, demo_depot 3])) ''f.txt''
           = Some (demo_entry 3, depot_id (demo_depot 3)))"
    by (rule aggregate_last_writer_wins [where pre = "[demo_depot 1]" and mid = "[]"])
       (simp_all add: demo_depot_def demo_manifests_def demo_entry_def)
  then show ?thesis by (simp add: demo_depot_def)
qed

text \<open>
  Claim C1 as stated fails when a third depot lists the path.  In the queue of depots
  1, 2, 3 the path is in the earlier depot 1 and the later depot 2, yet the map gives
  the entry of depot 3; and for the earlier depot 1 and the later depot 3 the log has
  no event \<open>(path, 1, 3)\<close>: its events are \<open>(path, 1, 2)\<close> and \<open>(path, 2, 3)\<close>.
\<close>

theorem aggregate_three_depots_counterexample:
  "map_of (fst (aggregate demo_manifests [demo_depot 1, demo_depot 2, demo_depot 3])) ''f.txt''
      = Some (demo_entry 3, 3)
   \<and> map_of (fst (aggregate demo_manifests [demo_depot 1, demo_depot 2, demo_depot 3])) ''f.txt''
      \<noteq> Some (demo_entry 2, 2)
   \<and> snd (aggregate demo_manifests [demo_depot 1, demo_depot 2, demo_depot 3])
      = [(''f.txt'', 1, 2), (''f.txt'', 2, 3)]
   \<and> count_list (snd (aggregate demo_manifests [demo_depot 1, demo_depot 2, demo_depot 3]))
      (''f.txt'', 1, 3) = 0"
  by (simp add: aggregate_def add_file_def demo_manifests_def demo_depot_def demo_entry_def)

section \<open>Properties of loading a queue descriptor\<close>




lemma queue_cleared_reset [simp]: "queue_cleared (reset_queue st)"
  by (simp add: queue_cleared_def reset_queue_def)




section \<open>The descriptor round trip\<close>


























section \<open>Properties of the verification and download cycle\<close>





lemma run_downloads_Cons:
  "snd (run_downloads it ((f, flag) # rest) fs) =
     snd (run_downloads it rest (if flag then fst (snd (download_single_file it f fs)) else fs))"
  "fst (run_downloads it ((f, flag) # rest) fs) =
     (if flag then fst (download_single_file it f fs) else f)
     # fst (run_downloads it rest (if flag then fst (snd (download_single_file it f fs)) else fs))"
  by (simp_all split: prod.splits)

lemma run_downloads_io_fault [simp]:
  "io_fault (snd (run_downloads it marked fs)) = io_fault fs"
proof (induction marked arbitrary: fs)
  case Nil
  then show ?case by simp
next
  case (Cons m marked)
  obtain f flag where m: "m = (f, flag)" by (cases m)
  show ?case unfolding m run_downloads_Cons by (simp add: Cons.IH)
qed








end
